theory Spec2Isabelle
  imports Main "HOL-Library.Word" "HOL-Library.Code_Target_Nat"
begin

section \<open>The file access helpers of Rieger.h (namespace IO)\<close>

text \<open>
  The helpers are thin wrappers over \<^verbatim>\<open>std::filesystem\<close>, \<^verbatim>\<open>std::ifstream\<close> and
  \<^verbatim>\<open>std::ofstream\<close>. The functions of namespace IO are translated line by line; the
  library and the operating system below them are modelled by a record of what the
  environment decides:
  \<^item> a path names nothing, a directory, a regular file holding a sequence of bytes, or a
    special file (a device, a FIFO, a terminal), which may or may not support seeking,
    delivers some bytes to a reader and swallows what is written to it;
  \<^item> the status query behind \<^verbatim>\<open>exists\<close> and \<^verbatim>\<open>is_directory\<close> can fail on a path where it
    finds nothing (an over-long name, a parent directory that may not be searched); the
    overloads the helpers call then throw \<^verbatim>\<open>std::filesystem::filesystem_error\<close>;
  \<^item> whether the process may open a path for reading, and whether it may open it for
    writing (creating it when it is absent), is given per path;
  \<^item> a file at a path can hold only so many bytes (free space, quota): what a stream
    writes beyond that is lost, and the helpers do not look at the state of the stream
    after writing;
  \<^item> the heap serves a request up to a limit and refuses larger ones with
    \<^verbatim>\<open>std::bad_alloc\<close>; a request of at most one page is always served;
  \<^item> constructing a vector of more than \<^verbatim>\<open>max_size()\<close> elements throws
    \<^verbatim>\<open>std::length_error\<close>;
  \<^item> streams carry the state the helpers test: \<^verbatim>\<open>is_open\<close>, the get position,
    \<^verbatim>\<open>eofbit\<close>, \<^verbatim>\<open>failbit\<close> and \<^verbatim>\<open>gcount\<close>;
  \<^item> text mode and binary mode are the same (POSIX), and \<^verbatim>\<open>std::endl\<close> writes the one
    byte 10;
  \<^item> \<^verbatim>\<open>size_t\<close> and \<^verbatim>\<open>std::streamsize\<close> are 64 bits wide (LP64), \<^verbatim>\<open>u32\<close> is 32 bits.
\<close>

subsection \<open>Types of the header\<close>

type_synonym u8 = "8 word"
type_synonym u32 = "32 word"
type_synonym size_t = "64 word"
type_synonym streamsize = int
type_synonym str = string
type_synonym Path = string

text \<open>A \<^verbatim>\<open>char\<close> of a \<^verbatim>\<open>str\<close> and a \<^verbatim>\<open>u8\<close> are the same eight bits.\<close>

definition to_u8 :: "char \<Rightarrow> u8" where
  "to_u8 c = of_nat (of_char c)"

definition to_char :: "u8 \<Rightarrow> char" where
  "to_char b = char_of (unat b)"

definition newline :: u8 where
  "newline = 10"

datatype cpp_exception = length_error | bad_alloc | filesystem_error

subsection \<open>The environment\<close>

text \<open>
  \<open>nodes\<close> is the name space as the process reaches it: what the status query finds at
  a path. A file or a directory behind a directory that the process may not search, or
  at an over-long name, is out of its reach: such a path names nothing here and
  \<open>status_fails\<close> holds of it. \<open>Special seekable bytes\<close> is a special file:
  \<open>seekable\<close> tells whether a seek on it succeeds, \<open>bytes\<close> is what it delivers to a
  reader before the end of its input.
\<close>

datatype node = Directory | Regular "u8 list" | Special bool "u8 list"

record filesystem =
  nodes :: "Path \<rightharpoonup> node"
  status_fails :: "Path \<Rightarrow> bool"
  may_read :: "Path \<Rightarrow> bool"
  may_write :: "Path \<Rightarrow> bool"
  capacity :: "Path \<Rightarrow> nat"
  heap_limit :: nat

text \<open>
  \<^verbatim>\<open>exists(p)\<close> and \<^verbatim>\<open>is_directory(p)\<close>, the overloads without an \<^verbatim>\<open>error_code\<close>: they
  throw when the status query fails.
\<close>

definition exists :: "filesystem \<Rightarrow> Path \<Rightarrow> cpp_exception + bool" where
  "exists fs p =
     (case nodes fs p of
        None \<Rightarrow> if status_fails fs p then Inl filesystem_error else Inr False
      | Some nd \<Rightarrow> Inr True)"

definition is_directory :: "filesystem \<Rightarrow> Path \<Rightarrow> cpp_exception + bool" where
  "is_directory fs p =
     (case nodes fs p of
        None \<Rightarrow> if status_fails fs p then Inl filesystem_error else Inr False
      | Some nd \<Rightarrow> Inr (nd = Directory))"

text \<open>
  The test \<^verbatim>\<open>!exists(filename) || is_directory(filename)\<close> that opens every read:
  \<^verbatim>\<open>is_directory\<close> is evaluated only when \<^verbatim>\<open>exists\<close> returned true.
\<close>

definition missing_or_directory :: "filesystem \<Rightarrow> Path \<Rightarrow> cpp_exception + bool" where
  "missing_or_directory fs p =
     (case exists fs p of
        Inl e \<Rightarrow> Inl e
      | Inr found \<Rightarrow> if \<not> found then Inr True else is_directory fs p)"

subsection \<open>The heap\<close>

definition small_request :: nat where
  "small_request = 4096"

definition served :: "filesystem \<Rightarrow> nat \<Rightarrow> bool" where
  "served fs n = (n \<le> small_request \<or> n \<le> heap_limit fs)"

definition max_size :: nat where
  "max_size = 2 ^ 63 - 1"

text \<open>\<^verbatim>\<open>Vector<u8> buffer(n)\<close>: \<open>n\<close> zero bytes, \<^verbatim>\<open>std::length_error\<close> or \<^verbatim>\<open>std::bad_alloc\<close>.\<close>

definition vector_n :: "filesystem \<Rightarrow> size_t \<Rightarrow> cpp_exception + u8 list" where
  "vector_n fs n =
     (if unat n > max_size then Inl length_error
      else if \<not> served fs (unat n) then Inl bad_alloc
      else Inr (replicate (unat n) 0))"

text \<open>
  A container filled from a stream until its end (the \<^verbatim>\<open>str\<close> of Read, the vector of
  ReadAllBytes, the lines of ReadAllLines) is built when the heap serves the bytes
  read.
\<close>

definition filled :: "filesystem \<Rightarrow> u8 list \<Rightarrow> 'a \<Rightarrow> cpp_exception + 'a option" where
  "filled fs bytes result = (if served fs (length bytes) then Inr (Some result) else Inl bad_alloc)"

subsection \<open>Input streams\<close>

record ifstream =
  is_open :: bool
  data :: "u8 list"
  can_seek :: bool
  gpos :: nat
  eofbit :: bool
  failbit :: bool
  gcount :: nat

definition closed_ifstream :: ifstream where
  "closed_ifstream =
     \<lparr>is_open = False, data = [], can_seek = False, gpos = 0, eofbit = False,
      failbit = True, gcount = 0\<rparr>"

definition opened_ifstream :: "u8 list \<Rightarrow> bool \<Rightarrow> ifstream" where
  "opened_ifstream bs seekable =
     \<lparr>is_open = True, data = bs, can_seek = seekable, gpos = 0, eofbit = False,
      failbit = False, gcount = 0\<rparr>"

text \<open>
  \<^verbatim>\<open>std::ifstream file(filename)\<close>: the stream is open on the bytes of a regular or
  special file the process may read; otherwise it is not open and \<^verbatim>\<open>failbit\<close> is set.
  (The helpers never construct a stream on a directory: they test \<^verbatim>\<open>is_directory\<close>
  first.)
\<close>

definition ifstream_open :: "filesystem \<Rightarrow> Path \<Rightarrow> ifstream" where
  "ifstream_open fs p =
     (case nodes fs p of
        Some (Regular bs) \<Rightarrow> if may_read fs p then opened_ifstream bs True else closed_ifstream
      | Some (Special seekable bs) \<Rightarrow>
          if may_read fs p then opened_ifstream bs seekable else closed_ifstream
      | _ \<Rightarrow> closed_ifstream)"

definition good :: "ifstream \<Rightarrow> bool" where
  "good s = (\<not> eofbit s \<and> \<not> failbit s)"

text \<open>
  \<^verbatim>\<open>seekg(off, std::ios::beg)\<close> clears \<^verbatim>\<open>eofbit\<close> and, unless the stream has failed,
  seeks. On a regular file a seek to a non-negative offset succeeds, also beyond the end
  of the file; on a file that cannot seek it fails and sets \<^verbatim>\<open>failbit\<close>.
\<close>

definition seekg :: "ifstream \<Rightarrow> nat \<Rightarrow> ifstream" where
  "seekg s off =
     (let s1 = s\<lparr>eofbit := False\<rparr>
      in if failbit s1 then s1
         else if can_seek s1 then s1\<lparr>gpos := off\<rparr>
         else s1\<lparr>failbit := True\<rparr>)"

text \<open>
  \<^verbatim>\<open>read(buf, n)\<close> copies up to \<open>n\<close> bytes over the front of the buffer, records how
  many in \<^verbatim>\<open>gcount\<close>, and sets \<^verbatim>\<open>eofbit\<close> and \<^verbatim>\<open>failbit\<close> when the file ends before
  \<open>n\<close> bytes.
\<close>

definition read :: "ifstream \<Rightarrow> u8 list \<Rightarrow> streamsize \<Rightarrow> ifstream \<times> u8 list" where
  "read s buf n =
     (if \<not> good s then (s\<lparr>failbit := True, gcount := 0\<rparr>, buf)
      else
        let got = take (nat n) (drop (gpos s) (data s)) in
          (s\<lparr>gpos := gpos s + length got,
             eofbit := (int (length got) \<noteq> n),
             failbit := (int (length got) \<noteq> n),
             gcount := length got\<rparr>,
           got @ drop (length got) buf))"

text \<open>The range of \<^verbatim>\<open>std::istreambuf_iterator\<close>: every byte from the get position on.\<close>

definition istreambuf_range :: "ifstream \<Rightarrow> u8 list" where
  "istreambuf_range s = drop (gpos s) (data s)"

text \<open>
  \<^verbatim>\<open>std::getline(file, line)\<close>: on a stream that is not good it sets \<^verbatim>\<open>failbit\<close>;
  otherwise it extracts up to the next newline, which it consumes and drops. With the
  file ending first it sets \<^verbatim>\<open>eofbit\<close>, and \<^verbatim>\<open>failbit\<close> too when it extracted nothing.
\<close>

definition getline :: "ifstream \<Rightarrow> str \<Rightarrow> ifstream \<times> str" where
  "getline s line =
     (if \<not> good s then (s\<lparr>failbit := True\<rparr>, line)
      else
        let rest = drop (gpos s) (data s);
            got = takeWhile (\<lambda>b. b \<noteq> newline) rest
        in if length got < length rest
           then (s\<lparr>gpos := gpos s + length got + 1\<rparr>, map to_char got)
           else (s\<lparr>gpos := gpos s + length got, eofbit := True, failbit := (got = [])\<rparr>,
                 map to_char got))"

subsection \<open>Output streams\<close>

record ofstream =
  o_is_open :: bool
  o_path :: Path

text \<open>
  \<^verbatim>\<open>std::ofstream outfile(filename)\<close> opens with \<^verbatim>\<open>out | trunc\<close>, on a path that is not
  a directory and that the process may write. A path that named nothing or a regular
  file then names an empty regular file; a special file stays what it is.
\<close>

definition ofstream_open :: "filesystem \<Rightarrow> Path \<Rightarrow> filesystem \<times> ofstream" where
  "ofstream_open fs p =
     (if nodes fs p \<noteq> Some Directory \<and> may_write fs p
      then (case nodes fs p of
              Some (Special seekable bs) \<Rightarrow> (fs, \<lparr>o_is_open = True, o_path = p\<rparr>)
            | _ \<Rightarrow> (fs\<lparr>nodes := (nodes fs)(p \<mapsto> Regular [])\<rparr>,
                    \<lparr>o_is_open = True, o_path = p\<rparr>))
      else (fs, \<lparr>o_is_open = False, o_path = p\<rparr>))"

text \<open>
  Output through an open stream goes to the end of what the stream wrote so far, as
  long as the file may grow: the bytes beyond \<open>capacity\<close> are lost (the stream turns
  bad, which no helper tests). A special file holds nothing of what is written to it.
\<close>

definition ofstream_write :: "filesystem \<Rightarrow> ofstream \<Rightarrow> u8 list \<Rightarrow> filesystem" where
  "ofstream_write fs out bs =
     (if o_is_open out
      then (case nodes fs (o_path out) of
              Some (Regular old) \<Rightarrow>
                fs\<lparr>nodes := (nodes fs)(o_path out \<mapsto>
                       Regular (take (capacity fs (o_path out)) (old @ bs)))\<rparr>
            | _ \<Rightarrow> fs)
      else fs)"

subsection \<open>namespace IO\<close>

definition Read :: "filesystem \<Rightarrow> Path \<Rightarrow> cpp_exception + str option" where
  "Read fs filename =
     (case missing_or_directory fs filename of
        Inl e \<Rightarrow> Inl e
      | Inr absent \<Rightarrow>
          if absent then Inr None
          else
            let file = ifstream_open fs filename in
              if \<not> is_open file then Inr None
              else filled fs (istreambuf_range file) (map to_char (istreambuf_range file)))"

definition ReadAllBytes :: "filesystem \<Rightarrow> Path \<Rightarrow> cpp_exception + u8 list option" where
  "ReadAllBytes fs filename =
     (case missing_or_directory fs filename of
        Inl e \<Rightarrow> Inl e
      | Inr absent \<Rightarrow>
          if absent then Inr None
          else
            let file = ifstream_open fs filename in
              if \<not> is_open file then Inr None
              else filled fs (istreambuf_range file) (istreambuf_range file))"

text \<open>The loop \<^verbatim>\<open>while (std::getline(file, line)) lines.push_back(line)\<close>.\<close>

definition lines_measure :: "ifstream \<Rightarrow> nat" where
  "lines_measure s =
     (if failbit s then 0 else if eofbit s then 1 else 2 + (length (data s) - gpos s))"

function ReadAllLines_loop :: "ifstream \<Rightarrow> str \<Rightarrow> str list \<Rightarrow> str list" where
  "ReadAllLines_loop file line lines =
     (if failbit (fst (getline file line)) then lines
      else ReadAllLines_loop (fst (getline file line)) (snd (getline file line))
             (lines @ [snd (getline file line)]))"
  by pat_completeness auto

termination
proof (relation "measure (\<lambda>(file, line, lines). lines_measure file)")
  show "wf (measure (\<lambda>(file, line, lines). lines_measure file))"
    by simp
next
  fix s :: ifstream and l :: str and ls :: "str list"
  assume "\<not> failbit (fst (getline s l))"
  then have "lines_measure (fst (getline s l)) < lines_measure s"
    by (auto simp: getline_def lines_measure_def good_def Let_def split: if_splits)
  then show "((fst (getline s l), snd (getline s l), ls @ [snd (getline s l)]), s, l, ls)
             \<in> measure (\<lambda>(file, line, lines). lines_measure file)"
    by simp
qed

declare ReadAllLines_loop.simps [simp del]

definition ReadAllLines :: "filesystem \<Rightarrow> Path \<Rightarrow> cpp_exception + str list option" where
  "ReadAllLines fs filename =
     (case missing_or_directory fs filename of
        Inl e \<Rightarrow> Inl e
      | Inr absent \<Rightarrow>
          if absent then Inr None
          else
            let file = ifstream_open fs filename in
              if \<not> is_open file then Inr None
              else filled fs (istreambuf_range file) (ReadAllLines_loop file [] []))"

text \<open>
  \<^verbatim>\<open>CAST<std::streamsize>(blockSize)\<close> reads the 64 bits of the \<^verbatim>\<open>size_t\<close> as a signed
  value; \<^verbatim>\<open>blockOffset\<close> converts to the stream offset type unchanged.
\<close>

definition ReadBlock ::
  "filesystem \<Rightarrow> Path \<Rightarrow> u32 \<Rightarrow> size_t \<Rightarrow> cpp_exception + u8 list option" where
  "ReadBlock fs filename blockOffset blockSize =
     (case missing_or_directory fs filename of
        Inl e \<Rightarrow> Inl e
      | Inr absent \<Rightarrow>
          if absent then Inr None
          else
            let file = ifstream_open fs filename in
              if \<not> is_open file then Inr None
              else
                let file = seekg file (unat blockOffset) in
                  if \<not> good file then Inr None
                  else
                    (case vector_n fs blockSize of
                       Inl e \<Rightarrow> Inl e
                     | Inr buffer \<Rightarrow>
                         let (file, buffer) = read file buffer (sint blockSize) in
                           if int (gcount file) \<noteq> sint blockSize then Inr None
                           else Inr (Some buffer)))"

definition Write :: "filesystem \<Rightarrow> Path \<Rightarrow> str \<Rightarrow> bool \<times> filesystem" where
  "Write fs filename content =
     (let (fs, outfile) = ofstream_open fs filename in
        if \<not> o_is_open outfile then (False, fs)
        else (True, ofstream_write fs outfile (map to_u8 content)))"

definition WriteAllBytes :: "filesystem \<Rightarrow> Path \<Rightarrow> u8 list \<Rightarrow> bool \<times> filesystem" where
  "WriteAllBytes fs filename bytes =
     (let (fs, outfile) = ofstream_open fs filename in
        if \<not> o_is_open outfile then (False, fs)
        else (True, ofstream_write fs outfile bytes))"

text \<open>The loop \<^verbatim>\<open>for (const auto& line : lines) outfile << line << std::endl\<close>.\<close>

fun WriteAllLines_loop :: "filesystem \<Rightarrow> ofstream \<Rightarrow> str list \<Rightarrow> filesystem" where
  "WriteAllLines_loop fs outfile [] = fs"
| "WriteAllLines_loop fs outfile (line # lines) =
     WriteAllLines_loop
       (ofstream_write (ofstream_write fs outfile (map to_u8 line)) outfile [newline])
       outfile lines"

definition WriteAllLines :: "filesystem \<Rightarrow> Path \<Rightarrow> str list \<Rightarrow> bool \<times> filesystem" where
  "WriteAllLines fs filename lines =
     (let (fs, outfile) = ofstream_open fs filename in
        if \<not> o_is_open outfile then (False, fs)
        else (True, WriteAllLines_loop fs outfile lines))"

subsection \<open>Notions the properties use\<close>

text \<open>The bytes WriteAllLines sends to its stream.\<close>

definition lines_bytes :: "str list \<Rightarrow> u8 list" where
  "lines_bytes ls = concat (map (\<lambda>l. map to_u8 l @ [newline]) ls)"

text \<open>Whether a path names a special file, and whether a seek on what it names succeeds.\<close>

definition special :: "filesystem \<Rightarrow> Path \<Rightarrow> bool" where
  "special fs p = (case nodes fs p of Some (Special seekable bs) \<Rightarrow> True | _ \<Rightarrow> False)"

definition seekable :: "filesystem \<Rightarrow> Path \<Rightarrow> bool" where
  "seekable fs p =
     (case nodes fs p of
        Some (Regular bs) \<Rightarrow> True
      | Some (Special sk bs) \<Rightarrow> sk
      | _ \<Rightarrow> False)"

subsection \<open>An example environment\<close>

text \<open>
  A ten-byte file \<open>f\<close>, an empty file \<open>e\<close>, a directory \<open>d\<close>, a file \<open>w\<close> that the
  process may write but not read, a null device \<open>null\<close>, a FIFO \<open>fifo\<close>, a path \<open>r\<close>
  that the process may not write, a path \<open>q\<close> where a file cannot grow beyond five
  bytes, and a path \<open>toolong\<close> on which the status query fails; every other path names
  nothing. The heap serves requests of up to 8192 bytes.
\<close>

definition example_fs :: filesystem where
  "example_fs =
     \<lparr>nodes = [''f'' \<mapsto> Regular [1, 2, 3, 4, 5, 6, 7, 8, 9, 10],
               ''e'' \<mapsto> Regular [],
               ''d'' \<mapsto> Directory,
               ''w'' \<mapsto> Regular [7],
               ''null'' \<mapsto> Special True [],
               ''fifo'' \<mapsto> Special False [1, 2, 3]],
      status_fails = (\<lambda>p. p = ''toolong''),
      may_read = (\<lambda>p. p \<noteq> ''w'' \<and> p \<noteq> ''toolong''),
      may_write = (\<lambda>p. p \<noteq> ''r'' \<and> p \<noteq> ''toolong''),
      capacity = (\<lambda>p. if p = ''q'' then 5 else 1000000),
      heap_limit = 8192\<rparr>"

section \<open>Properties\<close>

subsection \<open>Conversions\<close>

lemma to_char_to_u8: "to_char (to_u8 c) = c"
proof -
  have "(of_char c :: nat) mod 2 ^ 8 = of_char c"
    using of_char_mod_256 [of c, where ?'a = nat] by simp
  then show ?thesis
    by (simp add: to_char_def to_u8_def unat_of_nat)
qed

lemma map_to_char_to_u8: "map to_char (map to_u8 cs) = cs"
  by (induction cs) (simp_all add: to_char_to_u8)

lemma to_char_comp_to_u8: "to_char \<circ> to_u8 = id"
  by (simp add: fun_eq_iff to_char_to_u8)


text \<open>The cast to \<^verbatim>\<open>std::streamsize\<close> keeps every size a vector can have.\<close>

lemma sint_size:
  assumes "unat (n :: size_t) \<le> max_size"
  shows "sint n = int (unat n)"
proof -
  have "unat n < 2 ^ 63"
    using assms by (simp add: max_size_def)
  then have "int (unat n) < int (2 ^ 63)"
    by (simp only: of_nat_less_iff)
  then have "uint n < 2 ^ 63"
    by simp
  moreover have "- (2 ^ 63) \<le> uint n"
    by (rule order_trans [of _ 0]) simp_all
  ultimately have "signed_take_bit 63 (uint n) = uint n"
    by (rule signed_take_bit_int_eq_self [rotated])
  then show ?thesis
    by (simp add: sint_uint)
qed

subsection \<open>The status test, opening and reading\<close>

lemma missing_or_directory_found:
  "nodes fs p = Some nd \<Longrightarrow> missing_or_directory fs p = Inr (nd = Directory)"
  by (simp add: missing_or_directory_def exists_def is_directory_def)

lemma missing_or_directory_nothing:
  "nodes fs p = None \<Longrightarrow>
   missing_or_directory fs p = (if status_fails fs p then Inl filesystem_error else Inr True)"
  by (simp add: missing_or_directory_def exists_def)

lemma ifstream_open_regular:
  "nodes fs p = Some (Regular bs) \<Longrightarrow> may_read fs p \<Longrightarrow>
   ifstream_open fs p = opened_ifstream bs True"
  by (simp add: ifstream_open_def)

lemma ifstream_open_special:
  "nodes fs p = Some (Special sk bs) \<Longrightarrow> may_read fs p \<Longrightarrow>
   ifstream_open fs p = opened_ifstream bs sk"
  by (simp add: ifstream_open_def)

lemma ifstream_open_cases:
  "ifstream_open fs p = closed_ifstream
   \<or> (\<exists>bs. nodes fs p = Some (Regular bs) \<and> may_read fs p
            \<and> ifstream_open fs p = opened_ifstream bs True)
   \<or> (\<exists>sk bs. nodes fs p = Some (Special sk bs) \<and> may_read fs p
            \<and> ifstream_open fs p = opened_ifstream bs sk)"
  by (auto simp: ifstream_open_def split: option.splits node.splits)

lemma is_open_ifstream_open:
  "is_open (ifstream_open fs p) \<longleftrightarrow>
     (\<exists>nd. nodes fs p = Some nd \<and> nd \<noteq> Directory) \<and> may_read fs p"
  by (auto simp: ifstream_open_def closed_ifstream_def opened_ifstream_def
      split: option.splits node.splits)

lemma read_good:
  assumes "good s" and "0 \<le> k"
  shows "read s buf k =
    (s\<lparr>gpos := gpos s + min (nat k) (length (data s) - gpos s),
       eofbit := (min (nat k) (length (data s) - gpos s) \<noteq> nat k),
       failbit := (min (nat k) (length (data s) - gpos s) \<noteq> nat k),
       gcount := min (nat k) (length (data s) - gpos s)\<rparr>,
     take (nat k) (drop (gpos s) (data s))
       @ drop (min (nat k) (length (data s) - gpos s)) buf)"
proof -
  have "(int (min (nat k) (length (data s) - gpos s)) \<noteq> k)
          = (min (nat k) (length (data s) - gpos s) \<noteq> nat k)"
    using assms(2) by linarith
  then show ?thesis
    using assms(1) by (simp add: read_def Let_def min.commute)
qed

subsection \<open>What ReadBlock returns\<close>

lemma ReadBlock_nothing:
  "nodes fs p = None \<Longrightarrow>
   ReadBlock fs p off n = (if status_fails fs p then Inl filesystem_error else Inr None)"
  by (simp add: ReadBlock_def missing_or_directory_nothing)

lemma ReadBlock_directory:
  "nodes fs p = Some Directory \<Longrightarrow> ReadBlock fs p off n = Inr None"
  by (simp add: ReadBlock_def missing_or_directory_found)

lemma ReadBlock_not_open:
  "nodes fs p = Some nd \<Longrightarrow> \<not> is_open (ifstream_open fs p) \<Longrightarrow>
   ReadBlock fs p off n = Inr None"
  by (simp add: ReadBlock_def missing_or_directory_found Let_def)

text \<open>
  On an opened stream: a failed seek gives the absent result; otherwise the buffer is
  constructed, which may throw, and the block is returned when \<open>n\<close> bytes are left at
  the offset (in truncating subtraction: past the end of the file nothing is left).
\<close>

lemma ReadBlock_opened:
  assumes "nodes fs p = Some nd" and "nd \<noteq> Directory"
    and "ifstream_open fs p = opened_ifstream bs sk"
  shows "ReadBlock fs p off n =
           (if \<not> sk then Inr None
            else if max_size < unat n then Inl length_error
            else if \<not> served fs (unat n) then Inl bad_alloc
            else Inr (if unat n \<le> length bs - unat off
                      then Some (take (unat n) (drop (unat off) bs)) else None))"
proof (cases "sk \<and> unat n \<le> max_size \<and> served fs (unat n)")
  case False
  then show ?thesis
    using assms
    by (auto simp add: ReadBlock_def missing_or_directory_found opened_ifstream_def seekg_def
        good_def vector_n_def Let_def)
next
  case True
  define s where "s = seekg (opened_ifstream bs sk) (unat off)"
  define k where "k = unat n"
  have s: "s = \<lparr>is_open = True, data = bs, can_seek = True, gpos = unat off, eofbit = False,
                failbit = False, gcount = 0\<rparr>"
    using True by (simp add: s_def opened_ifstream_def seekg_def)
  have cast: "sint n = int k"
    unfolding k_def using True by (intro sint_size) simp
  have k: "k \<le> max_size" "served fs k"
    using True by (simp_all add: k_def)
  have g: "good s"
    by (simp add: s good_def)
  have op: "is_open (opened_ifstream bs sk)"
    by (simp add: opened_ifstream_def)
  have rd: "read s (replicate k 0) (int k) =
    (s\<lparr>gpos := gpos s + min k (length bs - unat off),
       eofbit := (min k (length bs - unat off) \<noteq> k),
       failbit := (min k (length bs - unat off) \<noteq> k),
       gcount := min k (length bs - unat off)\<rparr>,
     take k (drop (unat off) bs) @ drop (min k (length bs - unat off)) (replicate k 0))"
    using read_good [OF g, of "int k" "replicate k 0"] by (simp add: s)
  have "ReadBlock fs p off n =
     (let (file, buffer) = read s (replicate k 0) (int k) in
        if int (gcount file) \<noteq> int k then Inr None else Inr (Some buffer))"
    using assms(1,2) g k op
    by (simp add: ReadBlock_def missing_or_directory_found assms(3) vector_n_def Let_def cast
        flip: s_def k_def)
  also have "\<dots> = Inr (if k \<le> length bs - unat off
                then Some (take k (drop (unat off) bs)) else None)"
    unfolding rd by (simp add: min_def)
  finally show ?thesis
    using True by (simp add: k_def)
qed

lemma ReadBlock_regular:
  assumes "nodes fs p = Some (Regular bs)" and "may_read fs p" and "unat n \<le> max_size"
    and "served fs (unat n)"
  shows "ReadBlock fs p off n =
           Inr (if unat n \<le> length bs - unat off
                then Some (take (unat n) (drop (unat off) bs)) else None)"
  using ReadBlock_opened [OF assms(1) _ ifstream_open_regular [OF assms(1,2)], of off n]
    assms(3,4)
  by simp

lemma ReadBlock_present_length:
  assumes "ReadBlock fs p off n = Inr (Some buf)"
  shows "length buf = unat n"
proof (cases "nodes fs p")
  case None
  with assms show ?thesis
    by (simp add: ReadBlock_nothing split: if_splits)
next
  case (Some nd)
  show ?thesis
  proof (cases "is_open (ifstream_open fs p)")
    case False
    with Some assms show ?thesis
      by (simp add: ReadBlock_not_open)
  next
    case True
    then have nd: "nd \<noteq> Directory"
      using Some by (auto simp: is_open_ifstream_open)
    from True obtain bs sk where "ifstream_open fs p = opened_ifstream bs sk"
      using ifstream_open_cases [of fs p] by (auto simp: closed_ifstream_def)
    from ReadBlock_opened [OF Some nd this, of off n] assms show ?thesis
      by (auto split: if_splits)
  qed
qed

subsection \<open>What the whole-file reads return\<close>

lemma whole_reads_nothing:
  assumes "nodes fs p = None"
  shows "Read fs p = (if status_fails fs p then Inl filesystem_error else Inr None)"
    and "ReadAllBytes fs p = (if status_fails fs p then Inl filesystem_error else Inr None)"
    and "ReadAllLines fs p = (if status_fails fs p then Inl filesystem_error else Inr None)"
  using assms
  by (simp_all add: Read_def ReadAllBytes_def ReadAllLines_def missing_or_directory_nothing)

lemma whole_reads_not_open:
  assumes "nodes fs p = Some nd" and "\<not> is_open (ifstream_open fs p)"
  shows "Read fs p = Inr None" and "ReadAllBytes fs p = Inr None"
    and "ReadAllLines fs p = Inr None"
  using assms
  by (simp_all add: Read_def ReadAllBytes_def ReadAllLines_def missing_or_directory_found
      Let_def)

lemma whole_reads_opened:
  assumes "nodes fs p = Some nd" and "nd \<noteq> Directory"
    and "ifstream_open fs p = opened_ifstream bs sk"
  shows "Read fs p = filled fs bs (map to_char bs)"
    and "ReadAllBytes fs p = filled fs bs bs"
    and "ReadAllLines fs p = filled fs bs (ReadAllLines_loop (opened_ifstream bs sk) [] [])"
  using assms(1,2)
  by (simp_all add: Read_def ReadAllBytes_def ReadAllLines_def missing_or_directory_found
      assms(3) istreambuf_range_def opened_ifstream_def)

lemma Read_regular:
  "nodes fs p = Some (Regular bs) \<Longrightarrow> may_read fs p \<Longrightarrow>
   Read fs p = filled fs bs (map to_char bs)"
  using whole_reads_opened(1) [of fs p "Regular bs" bs True]
  by (simp add: ifstream_open_regular)

lemma ReadAllBytes_regular:
  "nodes fs p = Some (Regular bs) \<Longrightarrow> may_read fs p \<Longrightarrow> ReadAllBytes fs p = filled fs bs bs"
  using whole_reads_opened(2) [of fs p "Regular bs" bs True]
  by (simp add: ifstream_open_regular)


lemma whole_reads_unreadable:
  assumes "nodes fs p = Some nd" and "\<not> may_read fs p"
  shows "Read fs p = Inr None" and "ReadAllBytes fs p = Inr None"
    and "ReadAllLines fs p = Inr None"
  using assms by (simp_all add: whole_reads_not_open is_open_ifstream_open)




subsection \<open>What the writes do\<close>

lemma o_is_open_ofstream_open:
  "o_is_open (snd (ofstream_open fs p)) \<longleftrightarrow> nodes fs p \<noteq> Some Directory \<and> may_write fs p"
  by (simp add: ofstream_open_def split: option.splits node.splits)

lemma ofstream_open_truncates:
  assumes "nodes fs p \<noteq> Some Directory" and "\<not> special fs p" and "may_write fs p"
  shows "ofstream_open fs p =
           (fs\<lparr>nodes := (nodes fs)(p \<mapsto> Regular [])\<rparr>, \<lparr>o_is_open = True, o_path = p\<rparr>)"
  using assms by (auto simp: ofstream_open_def special_def split: option.splits node.splits)

lemma ofstream_open_special:
  assumes "special fs p" and "may_write fs p"
  shows "ofstream_open fs p = (fs, \<lparr>o_is_open = True, o_path = p\<rparr>)"
  using assms by (auto simp: ofstream_open_def special_def split: option.splits node.splits)

lemma ofstream_write_special:
  "special fs p \<Longrightarrow> ofstream_write fs \<lparr>o_is_open = True, o_path = p\<rparr> bs = fs"
  by (auto simp: ofstream_write_def special_def split: option.splits node.splits)

lemma Write_opened:
  assumes "nodes fs p \<noteq> Some Directory" and "\<not> special fs p" and "may_write fs p"
  shows "Write fs p c =
           (True, fs\<lparr>nodes := (nodes fs)(p \<mapsto> Regular (take (capacity fs p) (map to_u8 c)))\<rparr>)"
  by (simp add: Write_def ofstream_open_truncates [OF assms] ofstream_write_def)

lemma WriteAllBytes_opened:
  assumes "nodes fs p \<noteq> Some Directory" and "\<not> special fs p" and "may_write fs p"
  shows "WriteAllBytes fs p b =
           (True, fs\<lparr>nodes := (nodes fs)(p \<mapsto> Regular (take (capacity fs p) b))\<rparr>)"
  by (simp add: WriteAllBytes_def ofstream_open_truncates [OF assms] ofstream_write_def)

lemma take_take_append: "take k (take k xs @ ys) = take k (xs @ ys)"
  by (cases "k \<le> length xs") simp_all

lemma WriteAllLines_loop_appends:
  "nodes fs p = Some (Regular (take (capacity fs p) old)) \<Longrightarrow>
   WriteAllLines_loop fs \<lparr>o_is_open = True, o_path = p\<rparr> ls =
     fs\<lparr>nodes := (nodes fs)(p \<mapsto> Regular (take (capacity fs p) (old @ lines_bytes ls)))\<rparr>"
proof (induction ls arbitrary: fs old)
  case Nil
  then show ?case
    by (simp add: lines_bytes_def map_upd_triv)
next
  case (Cons l ls)
  define fs' where
    "fs' = fs\<lparr>nodes := (nodes fs)(p \<mapsto>
              Regular (take (capacity fs p) ((old @ map to_u8 l @ [newline]))))\<rparr>"
  have "take (capacity fs p) (take (capacity fs p) (take (capacity fs p) old @ map to_u8 l)
          @ [newline]) = take (capacity fs p) (old @ map to_u8 l @ [newline])"
    by (simp only: take_take_append append_assoc)
  then have step:
    "ofstream_write (ofstream_write fs \<lparr>o_is_open = True, o_path = p\<rparr> (map to_u8 l))
       \<lparr>o_is_open = True, o_path = p\<rparr> [newline] = fs'"
    using Cons.prems by (simp add: ofstream_write_def fs'_def)
  have c: "capacity fs' p = capacity fs p"
    by (simp add: fs'_def)
  have "nodes fs' p = Some (Regular (take (capacity fs' p) (old @ map to_u8 l @ [newline])))"
    by (simp add: fs'_def)
  then have "WriteAllLines_loop fs' \<lparr>o_is_open = True, o_path = p\<rparr> ls =
      fs'\<lparr>nodes := (nodes fs')(p \<mapsto>
             Regular (take (capacity fs' p) ((old @ map to_u8 l @ [newline]) @ lines_bytes ls)))\<rparr>"
    by (rule Cons.IH)
  also have "\<dots> = fs\<lparr>nodes := (nodes fs)(p \<mapsto>
                       Regular (take (capacity fs p) (old @ lines_bytes (l # ls))))\<rparr>"
    by (simp add: fs'_def lines_bytes_def)
  finally show ?case
    by (simp only: WriteAllLines_loop.simps step)
qed

lemma WriteAllLines_loop_special:
  "special fs p \<Longrightarrow> WriteAllLines_loop fs \<lparr>o_is_open = True, o_path = p\<rparr> ls = fs"
  by (induction ls) (simp_all add: ofstream_write_special)

lemma WriteAllLines_opened:
  assumes "nodes fs p \<noteq> Some Directory" and "\<not> special fs p" and "may_write fs p"
  shows "WriteAllLines fs p ls =
           (True, fs\<lparr>nodes := (nodes fs)(p \<mapsto> Regular (take (capacity fs p) (lines_bytes ls)))\<rparr>)"
proof -
  let ?fs = "fs\<lparr>nodes := (nodes fs)(p \<mapsto> Regular [])\<rparr>"
  have "nodes ?fs p = Some (Regular (take (capacity ?fs p) []))"
    by simp
  from WriteAllLines_loop_appends [OF this, of ls] show ?thesis
    by (simp add: WriteAllLines_def ofstream_open_truncates [OF assms])
qed

lemma writes_special:
  assumes "special fs p" and "may_write fs p"
  shows "Write fs p c = (True, fs)" and "WriteAllBytes fs p b = (True, fs)"
    and "WriteAllLines fs p ls = (True, fs)"
  using assms
  by (simp_all add: Write_def WriteAllBytes_def WriteAllLines_def ofstream_open_special
      ofstream_write_special WriteAllLines_loop_special)

lemma writes_not_opened:
  assumes "\<not> (nodes fs p \<noteq> Some Directory \<and> may_write fs p)"
  shows "Write fs p c = (False, fs)" and "WriteAllBytes fs p b = (False, fs)"
    and "WriteAllLines fs p ls = (False, fs)"
  using assms
  by (auto simp add: Write_def WriteAllBytes_def WriteAllLines_def ofstream_open_def)

text \<open>Each write returns whether its stream opened.\<close>

lemma write_flag_opened:
  "fst (Write fs p c) = o_is_open (snd (ofstream_open fs p))"
  "fst (WriteAllBytes fs p b) = o_is_open (snd (ofstream_open fs p))"
  "fst (WriteAllLines fs p ls) = o_is_open (snd (ofstream_open fs p))"
  by (simp_all add: Write_def WriteAllBytes_def WriteAllLines_def split_beta)

subsection \<open>What a successful write leaves behind\<close>

lemma opened_not_directory:
  "fst (Write fs p c) \<Longrightarrow> nodes fs p \<noteq> Some Directory \<and> may_write fs p"
  "fst (WriteAllBytes fs p b) \<Longrightarrow> nodes fs p \<noteq> Some Directory \<and> may_write fs p"
  "fst (WriteAllLines fs p ls) \<Longrightarrow> nodes fs p \<noteq> Some Directory \<and> may_write fs p"
  by (simp_all add: write_flag_opened o_is_open_ofstream_open)

text \<open>What a whole-file read can return on a regular file.\<close>

lemma reads_of_written:
  assumes "nodes fs p = Some (Regular bs)"
  shows "(\<forall>x. ReadAllBytes fs p = Inr (Some x) \<longrightarrow> x = bs)
       \<and> (\<forall>x. Read fs p = Inr (Some x) \<longrightarrow> x = map to_char bs)"
proof (cases "may_read fs p")
  case True
  with assms show ?thesis
    by (simp add: ReadAllBytes_regular Read_regular filled_def)
next
  case False
  with assms show ?thesis
    by (simp add: whole_reads_unreadable)
qed

section \<open>The claims\<close>

subsection \<open>Block reads\<close>

text \<open>
  C1 (as amended). The claim reads: whenever offset + length exceeds the size of the
  file, ReadBlock returns an absent result and never a short buffer. Three kinds of
  input escape it. A block of length 0 is read in full wherever the get position stands,
  so ReadBlock returns a present, empty buffer also past the end of the file; a block
  length above \<open>max_size\<close> makes the construction of the buffer throw
  \<^verbatim>\<open>std::length_error\<close>; and a block length the heap does not serve makes it throw
  \<^verbatim>\<open>std::bad_alloc\<close>, since the buffer is constructed before anything is read. What
  holds: for every input whatever, a present result of ReadBlock has exactly the
  requested length, never fewer bytes; and for every regular file that the status query
  finds, every offset and every block length greater than 0 with offset + length
  beyond the size of the file, ReadBlock returns no present result, and it returns the
  absent result whenever the buffer can be constructed (the length is at most
  \<open>max_size\<close> and the heap serves it).
\<close>

theorem ReadBlock_past_end_absent:
  "(\<forall>buf. ReadBlock fs p off n = Inr (Some buf) \<longrightarrow> length buf = unat n)
   \<and> (nodes fs p = Some (Regular bs) \<and> length bs < unat off + unat n \<and> 0 < unat n \<longrightarrow>
        (\<forall>buf. ReadBlock fs p off n \<noteq> Inr (Some buf))
        \<and> (unat n \<le> max_size \<and> served fs (unat n) \<longrightarrow> ReadBlock fs p off n = Inr None))"
proof (intro conjI impI allI)
  fix buf
  assume "ReadBlock fs p off n = Inr (Some buf)"
  then show "length buf = unat n"
    by (rule ReadBlock_present_length)
next
  fix buf
  assume a: "nodes fs p = Some (Regular bs) \<and> length bs < unat off + unat n \<and> 0 < unat n"
  then have short: "\<not> unat n \<le> length bs - unat off"
    by linarith
  show "ReadBlock fs p off n \<noteq> Inr (Some buf)"
  proof (cases "may_read fs p")
    case False
    with a have "ReadBlock fs p off n = Inr None"
      by (simp add: ReadBlock_not_open is_open_ifstream_open)
    then show ?thesis by simp
  next
    case True
    from a True have "ifstream_open fs p = opened_ifstream bs True"
      by (simp add: ifstream_open_regular)
    from ReadBlock_opened [OF _ _ this, of "Regular bs" off n] a short show ?thesis
      by simp
  qed
next
  assume a: "nodes fs p = Some (Regular bs) \<and> length bs < unat off + unat n \<and> 0 < unat n"
    and b: "unat n \<le> max_size \<and> served fs (unat n)"
  from a have short: "\<not> unat n \<le> length bs - unat off"
    by linarith
  show "ReadBlock fs p off n = Inr None"
  proof (cases "may_read fs p")
    case False
    with a show ?thesis
      by (simp add: ReadBlock_not_open is_open_ifstream_open)
  next
    case True
    with a b short show ?thesis
      by (simp add: ReadBlock_regular)
  qed
qed

theorem ReadBlock_past_end_absent_witness:
  "nodes example_fs ''f'' = Some (Regular [1, 2, 3, 4, 5, 6, 7, 8, 9, 10])
   \<and> length [1, 2, 3, 4, 5, 6, 7, 8, 9, 10 :: u8] < unat (5 :: u32) + unat (6 :: size_t)
   \<and> 0 < unat (6 :: size_t) \<and> unat (6 :: size_t) \<le> max_size
   \<and> served example_fs (unat (6 :: size_t))
   \<and> ReadBlock example_fs ''f'' 5 6 = Inr None
   \<and> ReadBlock example_fs ''f'' 5 5 = Inr (Some [6, 7, 8, 9, 10])
   \<and> length [6, 7, 8, 9, 10 :: u8] = unat (5 :: size_t)"
proof -
  have f: "nodes example_fs ''f'' = Some (Regular [1, 2, 3, 4, 5, 6, 7, 8, 9, 10])"
    and r: "may_read example_fs ''f''"
    by (simp_all add: example_fs_def)
  have l: "length [1, 2, 3, 4, 5, 6, 7, 8, 9, 10 :: u8] < unat (5 :: u32) + unat (6 :: size_t)"
    by simp
  have n: "0 < unat (6 :: size_t)" "unat (6 :: size_t) \<le> max_size"
    "served example_fs (unat (6 :: size_t))"
    "unat (5 :: size_t) \<le> max_size" "served example_fs (unat (5 :: size_t))"
    by (simp_all add: max_size_def served_def small_request_def)
  from ReadBlock_past_end_absent
    [of example_fs "''f''" 5 6 "[1, 2, 3, 4, 5, 6, 7, 8, 9, 10]"] f l n
  have absent: "ReadBlock example_fs ''f'' 5 6 = Inr None"
    by blast
  have present: "ReadBlock example_fs ''f'' 5 5 = Inr (Some [6, 7, 8, 9, 10])"
    using ReadBlock_regular [OF f r n(4,5), of 5] by simp
  from ReadBlock_past_end_absent [of example_fs "''f''" 5 5] present
  have "length [6, 7, 8, 9, 10 :: u8] = unat (5 :: size_t)"
    by blast
  with f l n absent present show ?thesis
    by blast
qed

text \<open>
  The claim as stated fails on the empty file \<open>e\<close> at offset 1 and length 0 (a present
  result), and on the ten-byte file \<open>f\<close> at length \<open>2 ^ 63\<close> and at length \<open>2 ^ 62\<close>
  (an exception each).
\<close>

theorem ReadBlock_past_end_counterexample:
  "nodes example_fs ''e'' = Some (Regular [])
   \<and> length ([] :: u8 list) < unat (1 :: u32) + unat (0 :: size_t)
   \<and> ReadBlock example_fs ''e'' 1 0 = Inr (Some [])
   \<and> nodes example_fs ''f'' = Some (Regular [1, 2, 3, 4, 5, 6, 7, 8, 9, 10])
   \<and> length [1, 2, 3, 4, 5, 6, 7, 8, 9, 10 :: u8]
        < unat (5 :: u32) + unat (9223372036854775808 :: size_t)
   \<and> ReadBlock example_fs ''f'' 5 9223372036854775808 = Inl length_error
   \<and> length [1, 2, 3, 4, 5, 6, 7, 8, 9, 10 :: u8]
        < unat (5 :: u32) + unat (4611686018427387904 :: size_t)
   \<and> ReadBlock example_fs ''f'' 5 4611686018427387904 = Inl bad_alloc"
proof -
  have e: "nodes example_fs ''e'' = Some (Regular [])"
    and f: "nodes example_fs ''f'' = Some (Regular [1, 2, 3, 4, 5, 6, 7, 8, 9, 10])"
    and r: "may_read example_fs ''e''" "may_read example_fs ''f''"
    by (simp_all add: example_fs_def)
  have "unat (0 :: size_t) \<le> max_size" "served example_fs (unat (0 :: size_t))"
    by (simp_all add: served_def)
  from ReadBlock_regular [OF e r(1) this, of 1]
  have empty: "ReadBlock example_fs ''e'' 1 0 = Inr (Some [])"
    by simp
  have o: "ifstream_open example_fs ''f''
             = opened_ifstream [1, 2, 3, 4, 5, 6, 7, 8, 9, 10] True"
    using f r(2) by (rule ifstream_open_regular)
  have big: "max_size < unat (9223372036854775808 :: size_t)"
    by (simp add: max_size_def)
  have "ReadBlock example_fs ''f'' 5 9223372036854775808 = Inl length_error"
    using ReadBlock_opened [OF f _ o, of 5 9223372036854775808] big by simp
  moreover have "\<not> max_size < unat (4611686018427387904 :: size_t)"
    "\<not> served example_fs (unat (4611686018427387904 :: size_t))"
    by (simp_all add: max_size_def served_def small_request_def example_fs_def)
  then have "ReadBlock example_fs ''f'' 5 4611686018427387904 = Inl bad_alloc"
    using ReadBlock_opened [OF f _ o, of 5 4611686018427387904] by simp
  ultimately show ?thesis
    using e f empty by simp
qed

text \<open>
  C5. For every readable regular file, ReadBlock with offset 0 and block length equal
  to the size of the file returns the same byte sequence as ReadAllBytes on the same
  path: the two calls have the same outcome, which is the bytes of the file when the
  heap serves them (and \<^verbatim>\<open>std::bad_alloc\<close> from both when it does not). The size of a
  file is at most \<open>2 ^ 63 - 1\<close>, the largest file offset, which is \<open>max_size\<close>.
\<close>

theorem ReadBlock_whole_file:
  assumes "nodes fs p = Some (Regular bs)" and "may_read fs p"
    and "unat n = length bs" and "length bs \<le> max_size"
  shows "ReadBlock fs p 0 n = ReadAllBytes fs p
       \<and> ReadAllBytes fs p = (if served fs (length bs) then Inr (Some bs) else Inl bad_alloc)"
proof -
  have all: "ReadAllBytes fs p = (if served fs (length bs) then Inr (Some bs) else Inl bad_alloc)"
    using assms(1,2) by (simp add: ReadAllBytes_regular filled_def)
  have o: "ifstream_open fs p = opened_ifstream bs True"
    using assms(1,2) by (rule ifstream_open_regular)
  from ReadBlock_opened [OF assms(1) _ o, of 0 n]
  have "ReadBlock fs p 0 n = (if served fs (length bs) then Inr (Some bs) else Inl bad_alloc)"
    using assms(3,4) by simp
  with all show ?thesis
    by simp
qed

theorem ReadBlock_whole_file_witness:
  "nodes example_fs ''f'' = Some (Regular [1, 2, 3, 4, 5, 6, 7, 8, 9, 10])
   \<and> may_read example_fs ''f''
   \<and> unat (10 :: size_t) = length [1, 2, 3, 4, 5, 6, 7, 8, 9, 10 :: u8]
   \<and> length [1, 2, 3, 4, 5, 6, 7, 8, 9, 10 :: u8] \<le> max_size
   \<and> ReadAllBytes example_fs ''f'' = Inr (Some [1, 2, 3, 4, 5, 6, 7, 8, 9, 10])
   \<and> ReadBlock example_fs ''f'' 0 10 = Inr (Some [1, 2, 3, 4, 5, 6, 7, 8, 9, 10])"
proof -
  have f: "nodes example_fs ''f'' = Some (Regular [1, 2, 3, 4, 5, 6, 7, 8, 9, 10])"
    by (simp add: example_fs_def)
  have r: "may_read example_fs ''f''"
    by (simp add: example_fs_def)
  have n: "unat (10 :: size_t) = length [1, 2, 3, 4, 5, 6, 7, 8, 9, 10 :: u8]"
    by simp
  have m: "length [1, 2, 3, 4, 5, 6, 7, 8, 9, 10 :: u8] \<le> max_size"
    by (simp add: max_size_def)
  have h: "served example_fs (length [1, 2, 3, 4, 5, 6, 7, 8, 9, 10 :: u8])"
    by (simp add: served_def small_request_def)
  from ReadBlock_whole_file [OF f r n m] h f r n m show ?thesis
    by simp
qed

text \<open>
  C6. For every ten-byte readable regular file, ReadBlock with offset 5 and length 5
  returns exactly the last five bytes of the file, and ReadBlock with offset 5 and
  length 6 returns an absent result.
\<close>

theorem ReadBlock_ten_byte_file:
  assumes "nodes fs p = Some (Regular bs)" and "may_read fs p" and "length bs = 10"
  shows "ReadBlock fs p 5 5 = Inr (Some (drop 5 bs)) \<and> ReadBlock fs p 5 6 = Inr None"
proof -
  have five: "unat (5 :: size_t) \<le> max_size" "served fs (unat (5 :: size_t))"
    and six: "unat (6 :: size_t) \<le> max_size" "served fs (unat (6 :: size_t))"
    by (simp_all add: max_size_def served_def small_request_def)
  have "ReadBlock fs p 5 5 = Inr (Some (drop 5 bs))"
    using ReadBlock_regular [OF assms(1,2) five, of 5] assms(3) by simp
  moreover have "ReadBlock fs p 5 6 = Inr None"
    using ReadBlock_regular [OF assms(1,2) six, of 5] assms(3) by simp
  ultimately show ?thesis ..
qed

theorem ReadBlock_ten_byte_file_witness:
  "nodes example_fs ''f'' = Some (Regular [1, 2, 3, 4, 5, 6, 7, 8, 9, 10])
   \<and> may_read example_fs ''f''
   \<and> length [1, 2, 3, 4, 5, 6, 7, 8, 9, 10 :: u8] = 10
   \<and> ReadBlock example_fs ''f'' 5 5 = Inr (Some [6, 7, 8, 9, 10])
   \<and> ReadBlock example_fs ''f'' 5 6 = Inr None"
proof -
  have f: "nodes example_fs ''f'' = Some (Regular [1, 2, 3, 4, 5, 6, 7, 8, 9, 10])"
    by (simp add: example_fs_def)
  have r: "may_read example_fs ''f''"
    by (simp add: example_fs_def)
  have l: "length [1, 2, 3, 4, 5, 6, 7, 8, 9, 10 :: u8] = 10"
    by simp
  from ReadBlock_ten_byte_file [OF f r l] f r l show ?thesis
    by simp
qed




subsection \<open>Reads of missing paths and directories\<close>

text \<open>
  C7 (as amended). The claim reads: for every path that does not exist, and for every
  path that is a directory, each read returns an absent result. The reads call the
  overloads of \<^verbatim>\<open>exists\<close> and \<^verbatim>\<open>is_directory\<close> that throw when the status query fails,
  as it does on an over-long name or behind a directory the process may not search,
  whatever is or is not there. What holds: for every path on which the status query
  succeeds and finds nothing (\<^verbatim>\<open>exists\<close> returns false), and for every path on which it
  finds a directory (\<^verbatim>\<open>is_directory\<close> returns true), each of Read, ReadAllBytes,
  ReadAllLines and ReadBlock returns an absent result.
\<close>

theorem reads_absent_or_directory:
  assumes "exists fs p = Inr False \<or> is_directory fs p = Inr True"
  shows "Read fs p = Inr None \<and> ReadAllBytes fs p = Inr None \<and> ReadAllLines fs p = Inr None
       \<and> ReadBlock fs p off n = Inr None"
  using assms
proof
  assume "exists fs p = Inr False"
  then have "nodes fs p = None \<and> \<not> status_fails fs p"
    by (auto simp: exists_def split: option.splits if_splits)
  then show ?thesis
    by (simp add: whole_reads_nothing ReadBlock_nothing)
next
  assume "is_directory fs p = Inr True"
  then have d: "nodes fs p = Some Directory"
    by (auto simp: is_directory_def split: option.splits if_splits)
  then have "\<not> is_open (ifstream_open fs p)"
    by (simp add: is_open_ifstream_open)
  with d show ?thesis
    by (simp add: whole_reads_not_open ReadBlock_directory)
qed

theorem reads_absent_or_directory_witness:
  "nodes example_fs ''m'' = None \<and> exists example_fs ''m'' = Inr False
   \<and> Read example_fs ''m'' = Inr None \<and> ReadAllBytes example_fs ''m'' = Inr None
   \<and> ReadAllLines example_fs ''m'' = Inr None \<and> ReadBlock example_fs ''m'' 0 0 = Inr None
   \<and> nodes example_fs ''d'' = Some Directory \<and> is_directory example_fs ''d'' = Inr True
   \<and> Read example_fs ''d'' = Inr None \<and> ReadAllBytes example_fs ''d'' = Inr None
   \<and> ReadAllLines example_fs ''d'' = Inr None \<and> ReadBlock example_fs ''d'' 0 0 = Inr None"
proof -
  have m: "nodes example_fs ''m'' = None" and d: "nodes example_fs ''d'' = Some Directory"
    and s: "\<not> status_fails example_fs ''m''"
    by (simp_all add: example_fs_def)
  have m': "exists example_fs ''m'' = Inr False" and d': "is_directory example_fs ''d'' = Inr True"
    using m d s by (simp_all add: exists_def is_directory_def)
  from m' have "exists example_fs ''m'' = Inr False \<or> is_directory example_fs ''m'' = Inr True" ..
  note a = reads_absent_or_directory [OF this, of 0 0]
  from d' have "exists example_fs ''d'' = Inr False \<or> is_directory example_fs ''d'' = Inr True" ..
  note b = reads_absent_or_directory [OF this, of 0 0]
  from a b m d m' d' show ?thesis
    by simp
qed

text \<open>
  The claim as stated fails on the path \<open>toolong\<close>, which names nothing and on which
  the status query fails: each of the four reads throws.
\<close>

theorem reads_absent_counterexample:
  "nodes example_fs ''toolong'' = None
   \<and> Read example_fs ''toolong'' = Inl filesystem_error
   \<and> ReadAllBytes example_fs ''toolong'' = Inl filesystem_error
   \<and> ReadAllLines example_fs ''toolong'' = Inl filesystem_error
   \<and> ReadBlock example_fs ''toolong'' 0 0 = Inl filesystem_error"
proof -
  have n: "nodes example_fs ''toolong'' = None" and s: "status_fails example_fs ''toolong''"
    by (simp_all add: example_fs_def)
  from n s show ?thesis
    by (simp add: whole_reads_nothing ReadBlock_nothing)
qed

subsection \<open>Writing and reading back\<close>










subsection \<open>The results of writes\<close>

text \<open>
  C8. Each of Write, WriteAllBytes and WriteAllLines returns the failure flag exactly
  when its stream does not open for writing, and the success flag whenever it opens.
  The result is a boolean and nothing else: the writes have no exceptional outcome,
  and the flag does not tell why the stream did not open (the path is a directory, or
  the process may not write it).
\<close>

theorem write_flags:
  "fst (Write fs p c) = o_is_open (snd (ofstream_open fs p))
   \<and> fst (WriteAllBytes fs p b) = o_is_open (snd (ofstream_open fs p))
   \<and> fst (WriteAllLines fs p ls) = o_is_open (snd (ofstream_open fs p))
   \<and> o_is_open (snd (ofstream_open fs p)) = (nodes fs p \<noteq> Some Directory \<and> may_write fs p)"
  by (simp add: write_flag_opened o_is_open_ofstream_open)

theorem write_flags_witness:
  "fst (Write example_fs ''f'' ''hi'') \<and> fst (WriteAllBytes example_fs ''f'' [1])
   \<and> fst (WriteAllLines example_fs ''f'' [''hi''])
   \<and> o_is_open (snd (ofstream_open example_fs ''f''))
   \<and> \<not> fst (Write example_fs ''d'' ''hi'') \<and> \<not> fst (WriteAllBytes example_fs ''d'' [1])
   \<and> \<not> fst (WriteAllLines example_fs ''d'' [''hi''])
   \<and> \<not> o_is_open (snd (ofstream_open example_fs ''d''))
   \<and> \<not> fst (Write example_fs ''r'' ''hi'') \<and> \<not> fst (WriteAllBytes example_fs ''r'' [1])
   \<and> \<not> fst (WriteAllLines example_fs ''r'' [''hi''])
   \<and> \<not> o_is_open (snd (ofstream_open example_fs ''r''))"
proof -
  have f: "nodes example_fs ''f'' \<noteq> Some Directory \<and> may_write example_fs ''f''"
    and d: "\<not> (nodes example_fs ''d'' \<noteq> Some Directory \<and> may_write example_fs ''d'')"
    and r: "\<not> (nodes example_fs ''r'' \<noteq> Some Directory \<and> may_write example_fs ''r'')"
    by (simp_all add: example_fs_def)
  from write_flags [of example_fs "''f''" "''hi''" "[1]" "[''hi'']"]
    write_flags [of example_fs "''d''" "''hi''" "[1]" "[''hi'']"]
    write_flags [of example_fs "''r''" "''hi''" "[1]" "[''hi'']"] f d r
  show ?thesis
    by simp
qed

text \<open>
  C9 (as amended). The claim reads: after every successful write a whole-file read
  observes exactly the content just written, whatever the file contained before. A
  write that returns true may have lost the end of the content, since no write tests its
  stream after writing, and a special file keeps nothing of it. What holds: every
  successful Write, WriteAllBytes and WriteAllLines to a path that names nothing or a
  regular file replaces the contents of the file entirely: whatever the file system held
  before the call, after it the file holds exactly the bytes just written that the file
  could take (a prefix of the content, and all of it when it fits), and what a whole-file
  read (ReadAllBytes, Read) returns from it is exactly those bytes. Nothing of the
  earlier contents is kept or appended to.
\<close>

theorem writes_replace_contents:
  "(fst (Write fs p c) \<and> \<not> special fs p \<longrightarrow>
      nodes (snd (Write fs p c)) p = Some (Regular (take (capacity fs p) (map to_u8 c)))
      \<and> (\<forall>x. ReadAllBytes (snd (Write fs p c)) p = Inr (Some x)
              \<longrightarrow> x = take (capacity fs p) (map to_u8 c))
      \<and> (\<forall>x. Read (snd (Write fs p c)) p = Inr (Some x) \<longrightarrow> x = take (capacity fs p) c))
   \<and> (fst (WriteAllBytes fs p b) \<and> \<not> special fs p \<longrightarrow>
      nodes (snd (WriteAllBytes fs p b)) p = Some (Regular (take (capacity fs p) b))
      \<and> (\<forall>x. ReadAllBytes (snd (WriteAllBytes fs p b)) p = Inr (Some x)
              \<longrightarrow> x = take (capacity fs p) b)
      \<and> (\<forall>x. Read (snd (WriteAllBytes fs p b)) p = Inr (Some x)
              \<longrightarrow> x = map to_char (take (capacity fs p) b)))
   \<and> (fst (WriteAllLines fs p ls) \<and> \<not> special fs p \<longrightarrow>
      nodes (snd (WriteAllLines fs p ls)) p
        = Some (Regular (take (capacity fs p) (lines_bytes ls)))
      \<and> (\<forall>x. ReadAllBytes (snd (WriteAllLines fs p ls)) p = Inr (Some x)
              \<longrightarrow> x = take (capacity fs p) (lines_bytes ls))
      \<and> (\<forall>x. Read (snd (WriteAllLines fs p ls)) p = Inr (Some x)
              \<longrightarrow> x = map to_char (take (capacity fs p) (lines_bytes ls))))"
proof (intro conjI impI)
  assume a: "fst (Write fs p c) \<and> \<not> special fs p"
  then have "nodes fs p \<noteq> Some Directory \<and> may_write fs p"
    by (blast dest: opened_not_directory)
  with a have n: "nodes (snd (Write fs p c)) p
      = Some (Regular (take (capacity fs p) (map to_u8 c)))"
    by (simp add: Write_opened)
  then show "nodes (snd (Write fs p c)) p
      = Some (Regular (take (capacity fs p) (map to_u8 c)))" .
  from reads_of_written [OF n]
  show "\<forall>x. ReadAllBytes (snd (Write fs p c)) p = Inr (Some x)
          \<longrightarrow> x = take (capacity fs p) (map to_u8 c)"
    and "\<forall>x. Read (snd (Write fs p c)) p = Inr (Some x) \<longrightarrow> x = take (capacity fs p) c"
    by (simp_all add: take_map to_char_comp_to_u8)
next
  assume a: "fst (WriteAllBytes fs p b) \<and> \<not> special fs p"
  then have "nodes fs p \<noteq> Some Directory \<and> may_write fs p"
    by (blast dest: opened_not_directory)
  with a have n: "nodes (snd (WriteAllBytes fs p b)) p = Some (Regular (take (capacity fs p) b))"
    by (simp add: WriteAllBytes_opened)
  then show "nodes (snd (WriteAllBytes fs p b)) p = Some (Regular (take (capacity fs p) b))" .
  from reads_of_written [OF n]
  show "\<forall>x. ReadAllBytes (snd (WriteAllBytes fs p b)) p = Inr (Some x)
          \<longrightarrow> x = take (capacity fs p) b"
    and "\<forall>x. Read (snd (WriteAllBytes fs p b)) p = Inr (Some x)
          \<longrightarrow> x = map to_char (take (capacity fs p) b)"
    by simp_all
next
  assume a: "fst (WriteAllLines fs p ls) \<and> \<not> special fs p"
  then have "nodes fs p \<noteq> Some Directory \<and> may_write fs p"
    by (blast dest: opened_not_directory)
  with a have n: "nodes (snd (WriteAllLines fs p ls)) p
      = Some (Regular (take (capacity fs p) (lines_bytes ls)))"
    by (simp add: WriteAllLines_opened)
  then show "nodes (snd (WriteAllLines fs p ls)) p
      = Some (Regular (take (capacity fs p) (lines_bytes ls)))" .
  from reads_of_written [OF n]
  show "\<forall>x. ReadAllBytes (snd (WriteAllLines fs p ls)) p = Inr (Some x)
          \<longrightarrow> x = take (capacity fs p) (lines_bytes ls)"
    and "\<forall>x. Read (snd (WriteAllLines fs p ls)) p = Inr (Some x)
          \<longrightarrow> x = map to_char (take (capacity fs p) (lines_bytes ls))"
    by simp_all
qed

theorem writes_replace_contents_witness:
  "nodes example_fs ''f'' = Some (Regular [1, 2, 3, 4, 5, 6, 7, 8, 9, 10])
   \<and> fst (Write example_fs ''f'' ''hi'') \<and> \<not> special example_fs ''f''
   \<and> nodes (snd (Write example_fs ''f'' ''hi'')) ''f'' = Some (Regular (map to_u8 ''hi''))
   \<and> Read (snd (Write example_fs ''f'' ''hi'')) ''f'' = Inr (Some ''hi'')
   \<and> fst (WriteAllBytes example_fs ''f'' [42])
   \<and> nodes (snd (WriteAllBytes example_fs ''f'' [42])) ''f'' = Some (Regular [42])
   \<and> ReadAllBytes (snd (WriteAllBytes example_fs ''f'' [42])) ''f'' = Inr (Some [42])
   \<and> fst (WriteAllLines example_fs ''f'' [''hi''])
   \<and> nodes (snd (WriteAllLines example_fs ''f'' [''hi''])) ''f''
        = Some (Regular (lines_bytes [''hi'']))
   \<and> ReadAllBytes (snd (WriteAllLines example_fs ''f'' [''hi''])) ''f''
        = Inr (Some (lines_bytes [''hi'']))"
proof -
  have f: "nodes example_fs ''f'' = Some (Regular [1, 2, 3, 4, 5, 6, 7, 8, 9, 10])"
    and w: "nodes example_fs ''f'' \<noteq> Some Directory" "may_write example_fs ''f''"
    and r: "may_read example_fs ''f''" and s: "\<not> special example_fs ''f''"
    and c: "capacity example_fs ''f'' = 1000000"
    by (simp_all add: example_fs_def special_def)
  have ok: "fst (Write example_fs ''f'' ''hi'')" "fst (WriteAllBytes example_fs ''f'' [42])"
    "fst (WriteAllLines example_fs ''f'' [''hi''])"
    using w s by (simp_all add: Write_opened WriteAllBytes_opened WriteAllLines_opened)
  have r': "may_read (snd (Write example_fs ''f'' ''hi'')) ''f''"
    "may_read (snd (WriteAllBytes example_fs ''f'' [42])) ''f''"
    "may_read (snd (WriteAllLines example_fs ''f'' [''hi''])) ''f''"
    using w r s by (simp_all add: Write_opened WriteAllBytes_opened WriteAllLines_opened)
  have h: "\<And>fs. served fs (length (map to_u8 ''hi''))" "\<And>fs. served fs (length [42 :: u8])"
    "\<And>fs. served fs (length (lines_bytes [''hi'']))"
    by (simp_all add: served_def small_request_def lines_bytes_def)
  note t = writes_replace_contents [of example_fs "''f''" "''hi''" "[42]" "[''hi'']"]
  from t ok s
  have n: "nodes (snd (Write example_fs ''f'' ''hi'')) ''f'' = Some (Regular (map to_u8 ''hi''))"
    "nodes (snd (WriteAllBytes example_fs ''f'' [42])) ''f'' = Some (Regular [42])"
    "nodes (snd (WriteAllLines example_fs ''f'' [''hi''])) ''f''
       = Some (Regular (lines_bytes [''hi'']))"
    by (simp_all add: c lines_bytes_def)
  have "Read (snd (Write example_fs ''f'' ''hi'')) ''f'' = Inr (Some ''hi'')"
    using Read_regular [OF n(1) r'(1)] h(1) map_to_char_to_u8 [of "''hi''"]
    by (simp add: filled_def)
  moreover have "ReadAllBytes (snd (WriteAllBytes example_fs ''f'' [42])) ''f'' = Inr (Some [42])"
    using ReadAllBytes_regular [OF n(2) r'(2)] h(2) by (simp add: filled_def)
  moreover have "ReadAllBytes (snd (WriteAllLines example_fs ''f'' [''hi''])) ''f''
                   = Inr (Some (lines_bytes [''hi'']))"
    using ReadAllBytes_regular [OF n(3) r'(3)] h(3) by (simp add: filled_def)
  ultimately show ?thesis
    using f ok s n by simp
qed

text \<open>
  The claim as stated fails on the path \<open>q\<close>, where the file cannot grow beyond five
  bytes: Write returns true and the file holds the first five bytes of the eleven
  written. It fails on the device \<open>null\<close>: Write returns true and a whole-file read
  returns nothing.
\<close>

theorem writes_replace_contents_counterexample:
  "fst (Write example_fs ''q'' ''hello world'')
   \<and> nodes (snd (Write example_fs ''q'' ''hello world'')) ''q''
        = Some (Regular (map to_u8 ''hello''))
   \<and> ReadAllBytes (snd (Write example_fs ''q'' ''hello world'')) ''q''
        = Inr (Some (map to_u8 ''hello''))
   \<and> map to_u8 ''hello'' \<noteq> map to_u8 ''hello world''
   \<and> fst (Write example_fs ''null'' ''hello'')
   \<and> nodes (snd (Write example_fs ''null'' ''hello'')) ''null'' = Some (Special True [])
   \<and> ReadAllBytes (snd (Write example_fs ''null'' ''hello'')) ''null'' = Inr (Some [])"
proof -
  have nd: "nodes example_fs ''q'' \<noteq> Some Directory" and sp: "\<not> special example_fs ''q''"
    "special example_fs ''null''"
    and mw: "may_write example_fs ''q''" "may_write example_fs ''null''"
    by (simp_all add: example_fs_def special_def)
  note q = Write_opened [OF nd sp(1) mw(1), of "''hello world''"]
    and d = writes_special(1) [OF sp(2) mw(2), of "''hello''"]
  have "ReadAllBytes (snd (Write example_fs ''q'' ''hello world'')) ''q''
      = Inr (Some (map to_u8 ''hello''))"
    unfolding q
    using ReadAllBytes_regular
      [of _ "''q''" "take (capacity example_fs ''q'') (map to_u8 ''hello world'')"]
    by (simp add: example_fs_def filled_def served_def small_request_def)
  moreover have "ReadAllBytes (snd (Write example_fs ''null'' ''hello'')) ''null'' = Inr (Some [])"
    unfolding d
    using whole_reads_opened(2) [of example_fs "''null''" "Special True []" "[]" True]
    by (simp add: ifstream_open_special filled_def served_def example_fs_def)
  moreover have "nodes (snd (Write example_fs ''q'' ''hello world'')) ''q''
        = Some (Regular (map to_u8 ''hello''))"
    unfolding q by (simp add: example_fs_def)
  moreover have "nodes (snd (Write example_fs ''null'' ''hello'')) ''null''
        = Some (Special True [])"
    unfolding d by (simp add: example_fs_def)
  ultimately show ?thesis
    by (simp add: q d)
qed

end
